theory Spec2Isabelle
  imports Main "HOL-Library.Sublist"
begin

section \<open>Data model (src/store/nodesStore.ts and the types module)\<close>

text \<open>
  JSON values as \<open>JSON.parse\<close> returns them. Numbers are only carried and compared by
  the code modelled here, never computed on, so they are taken as integers. An object
  keeps its own properties as an association list.
\<close>

datatype json =
    JNull
  | JBool bool
  | JNum int
  | JStr string
  | JArr "json list"
  | JObj "(string \<times> json) list"

text \<open>\<open>XYPosition\<close> of the flow library: a pair of numbers.\<close>

record XYPosition =
  x :: int
  y :: int

text \<open>\<open>CardActions\<close>, \<open>CardItem\<close>, \<open>CarouselData\<close>, \<open>RichCardData\<close>.\<close>

record CardActions =
  action_value :: string

record CardItem =
  title :: string
  description :: string
  image :: string
  actions :: "CardActions list"
  card_selected :: "bool option"

record CarouselData =
  cards :: "CardItem list"

record RichCardData =
  rich_title :: string
  rich_description :: string
  rich_image :: string
  rich_actions :: "CardActions list"

datatype CustomNodeTypes = carousel | richCard

text \<open>
  The untagged union \<open>CarouselData | RichCardData\<close> of the source; the node's own
  \<open>type\<close> tag is a separate field, and nothing ties the two together.
\<close>

datatype Content = Carousel CarouselData | RichCard RichCardData

record NodeDatum =
  datum_type :: CustomNodeTypes
  content :: Content

record Measured =
  width :: "int option"
  height :: "int option"

text \<open>\<open>NodeData\<close>: optional properties are \<open>None\<close> when absent.\<close>

record NodeData =
  node_id :: string
  position :: XYPosition
  node_type :: "string option"
  node_data :: NodeDatum
  measured :: "Measured option"
  selected :: "bool option"
  dragging :: "bool option"

text \<open>
  \<open>Connection\<close> is the connect event of the flow library; \<open>Edge\<close> extends it with an
  id and the optional properties that the builder reads back (type, animated, style,
  data).
\<close>

record Connection =
  source :: string
  target :: string
  sourceHandle :: "string option"
  targetHandle :: "string option"

record Edge = Connection +
  edge_id :: string
  edge_type :: "string option"
  animated :: "bool option"
  style :: "json option"
  edge_data :: "json option"

record ConnectionData =
  conn_id :: string
  sourceId :: string
  targetId :: string
  sourcePosition :: XYPosition
  targetPosition :: XYPosition
  edgeData :: Edge

text \<open>
  \<open>NodesState\<close>: the two sequences of the store. The operations that never look into
  an element (append, replace, clear) are stated for any element type, because the
  import path stores the parsed values without checking them; the operations that read
  an id are stated for \<open>NodeData\<close> and \<open>ConnectionData\<close>.
\<close>

record ('n, 'c) NodesState =
  nodes :: "'n list"
  connections :: "'c list"

type_synonym Store = "(NodeData, ConnectionData) NodesState"

section \<open>Graph store operations\<close>

definition initial_state :: "('n, 'c) NodesState" where
  "initial_state = \<lparr>nodes = [], connections = []\<rparr>"

definition addNode :: "'n \<Rightarrow> ('n, 'c) NodesState \<Rightarrow> ('n, 'c) NodesState" where
  "addNode node state = state\<lparr>nodes := nodes state @ [node]\<rparr>"

definition onNodesChange ::
  "('ch list \<Rightarrow> 'n list \<Rightarrow> 'n list) \<Rightarrow> 'ch list \<Rightarrow> ('n, 'c) NodesState \<Rightarrow> ('n, 'c) NodesState" where
  "onNodesChange applyNodeChanges changes state =
     state\<lparr>nodes := applyNodeChanges changes (nodes state)\<rparr>"

definition setNodes :: "'n list \<Rightarrow> ('n, 'c) NodesState \<Rightarrow> ('n, 'c) NodesState" where
  "setNodes ns state = state\<lparr>nodes := ns\<rparr>"

definition updateNode :: "NodeData \<Rightarrow> (NodeData, 'c) NodesState \<Rightarrow> (NodeData, 'c) NodesState" where
  "updateNode node state =
     state\<lparr>nodes := map (\<lambda>n. if node_id n = node_id node then node else n) (nodes state)\<rparr>"

definition removeNode :: "string \<Rightarrow> (NodeData, 'c) NodesState \<Rightarrow> (NodeData, 'c) NodesState" where
  "removeNode i state = state\<lparr>nodes := filter (\<lambda>n. node_id n \<noteq> i) (nodes state)\<rparr>"

definition addConnection :: "'c \<Rightarrow> ('n, 'c) NodesState \<Rightarrow> ('n, 'c) NodesState" where
  "addConnection connection state = state\<lparr>connections := connections state @ [connection]\<rparr>"

definition updateConnection ::
  "ConnectionData \<Rightarrow> ('n, ConnectionData) NodesState \<Rightarrow> ('n, ConnectionData) NodesState" where
  "updateConnection connection state =
     state\<lparr>connections :=
       map (\<lambda>conn. if conn_id conn = conn_id connection then connection else conn)
         (connections state)\<rparr>"

definition removeConnection ::
  "string \<Rightarrow> ('n, ConnectionData) NodesState \<Rightarrow> ('n, ConnectionData) NodesState" where
  "removeConnection i state =
     state\<lparr>connections := filter (\<lambda>conn. conn_id conn \<noteq> i) (connections state)\<rparr>"

text \<open>
  The query reads the state with \<open>get()\<close> and never calls \<open>set\<close>; it returns its
  result together with the state it leaves behind.
\<close>

definition getConnectionsByNodeId ::
  "string \<Rightarrow> ('n, ConnectionData) NodesState
     \<Rightarrow> ConnectionData list \<times> ('n, ConnectionData) NodesState" where
  "getConnectionsByNodeId nodeId state =
     (filter (\<lambda>conn. sourceId conn = nodeId \<or> targetId conn = nodeId) (connections state),
      state)"

definition clearConnections :: "('n, 'c) NodesState \<Rightarrow> ('n, 'c) NodesState" where
  "clearConnections state = state\<lparr>connections := []\<rparr>"

definition createConnectionData :: "NodeData \<Rightarrow> NodeData \<Rightarrow> Edge \<Rightarrow> ConnectionData" where
  "createConnectionData sourceNode targetNode edge =
     \<lparr>conn_id = edge_id edge,
      sourceId = node_id sourceNode,
      targetId = node_id targetNode,
      sourcePosition = position sourceNode,
      targetPosition = position targetNode,
      edgeData = edge\<rparr>"

section \<open>Sequences of node calls\<close>

datatype call = AddNode NodeData | RemoveNode string | UpdateNode NodeData

fun apply_call :: "call \<Rightarrow> (NodeData, 'c) NodesState \<Rightarrow> (NodeData, 'c) NodesState" where
  "apply_call (AddNode n) state = addNode n state"
| "apply_call (RemoveNode i) state = removeNode i state"
| "apply_call (UpdateNode n) state = updateNode n state"

definition apply_calls :: "call list \<Rightarrow> (NodeData, 'c) NodesState \<Rightarrow> (NodeData, 'c) NodesState" where
  "apply_calls cs state = foldl (\<lambda>s c. apply_call c s) state cs"

text \<open>
  What the specification expects of such a sequence, written from its words: a node
  that was added survives unless its id is removed later, and it carries the content of
  the last later \<open>updateNode\<close> call with its id, or its own content when there is none.
\<close>

definition removed_later :: "string \<Rightarrow> call list \<Rightarrow> bool" where
  "removed_later i cs = (RemoveNode i \<in> set cs)"

fun updates_of :: "string \<Rightarrow> call list \<Rightarrow> NodeData list" where
  "updates_of i [] = []"
| "updates_of i (UpdateNode u # cs) =
     (if node_id u = i then u # updates_of i cs else updates_of i cs)"
| "updates_of i (c # cs) = updates_of i cs"

definition latest_content :: "NodeData \<Rightarrow> call list \<Rightarrow> NodeData" where
  "latest_content n cs =
     (case updates_of (node_id n) cs of [] \<Rightarrow> n | u # us \<Rightarrow> last (u # us))"

definition survivor :: "NodeData \<Rightarrow> call list \<Rightarrow> NodeData list" where
  "survivor n cs = (if removed_later (node_id n) cs then [] else [latest_content n cs])"

fun surviving_nodes :: "call list \<Rightarrow> NodeData list" where
  "surviving_nodes [] = []"
| "surviving_nodes (AddNode n # cs) = survivor n cs @ surviving_nodes cs"
| "surviving_nodes (c # cs) = surviving_nodes cs"

section \<open>Import and export (the export/import panel)\<close>

datatype js_error = SyntaxError | TypeError | Error string

text \<open>
  Reading a property of a parsed value: \<open>null\<close> throws, an object gives its own
  property or \<open>undefined\<close> (\<open>None\<close>), every other value gives \<open>undefined\<close>. The
  panel reads the properties \<open>nodes\<close> and \<open>connections\<close> only, which no
  prototype provides.
\<close>

fun js_get :: "json \<Rightarrow> string \<Rightarrow> js_error + json option" where
  "js_get JNull k = Inl TypeError"
| "js_get (JObj fs) k = Inr (map_of fs k)"
| "js_get v k = Inr None"

fun truthy :: "json option \<Rightarrow> bool" where
  "truthy None = False"
| "truthy (Some JNull) = False"
| "truthy (Some (JBool b)) = b"
| "truthy (Some (JNum n)) = (n \<noteq> 0)"
| "truthy (Some (JStr s)) = (s \<noteq> [])"
| "truthy (Some (JArr vs)) = True"
| "truthy (Some (JObj fs)) = True"

fun isArray :: "json option \<Rightarrow> bool" where
  "isArray (Some (JArr vs)) = True"
| "isArray v = False"

fun elements :: "json option \<Rightarrow> json list" where
  "elements (Some (JArr vs)) = vs"
| "elements v = []"

type_synonym JStore = "(json, json) NodesState"

text \<open>
  \<open>handleExport\<close>: the text handed to the download, \<open>JSON.stringify\<close> of the object
  \<open>{nodes, connections}\<close>. \<open>JSON.stringify\<close> and \<open>JSON.parse\<close> belong to the
  runtime and are parameters.
\<close>

definition handleExport :: "(json \<Rightarrow> string) \<Rightarrow> JStore \<Rightarrow> string" where
  "handleExport JSON_stringify state =
     (let flowData = JObj [(''nodes'', JArr (nodes state)),
                           (''connections'', JArr (connections state))]
      in JSON_stringify flowData)"

definition invalid_file_alert :: string where
  "invalid_file_alert = ''Invalid file format. Please upload a valid JSON file.''"

definition read_failed_alert :: string where
  "read_failed_alert = ''Failed to read file. Please try again.''"

text \<open>
  The two steps of the \<open>try\<close> block after \<open>clearConnections()\<close>. Each returns the
  exception it throws, if any, with the store as it is at that moment.
\<close>

definition import_nodes :: "json \<Rightarrow> JStore \<Rightarrow> js_error option \<times> JStore" where
  "import_nodes importedData state =
     (case js_get importedData ''nodes'' of
        Inl e \<Rightarrow> (Some e, state)
      | Inr ns \<Rightarrow>
          if truthy ns \<and> isArray ns then (None, setNodes (elements ns) state)
          else if isArray (Some importedData)
            then (None, setNodes (elements (Some importedData)) state)
          else (Some (Error ''Invalid nodes data structure''), state))"

definition import_connections :: "json \<Rightarrow> JStore \<Rightarrow> js_error option \<times> JStore" where
  "import_connections importedData state =
     (case js_get importedData ''connections'' of
        Inl e \<Rightarrow> (Some e, state)
      | Inr cs \<Rightarrow>
          if truthy cs \<and> isArray cs
            then (None, foldl (\<lambda>s conn. addConnection conn s) state (elements cs))
          else (None, state))"

text \<open>
  \<open>reader.onload\<close>: the result is the message alerted to the user, if any, and the
  store afterwards. \<open>JSON_parse\<close> returns \<open>None\<close> where \<open>JSON.parse\<close> throws.
\<close>

definition reader_onload ::
  "(string \<Rightarrow> json option) \<Rightarrow> string \<Rightarrow> JStore \<Rightarrow> string option \<times> JStore" where
  "reader_onload JSON_parse file_content state =
     (case JSON_parse file_content of
        None \<Rightarrow> (Some invalid_file_alert, state)
      | Some importedData \<Rightarrow>
          (let s1 = clearConnections state in
           case import_nodes importedData s1 of
             (Some e, s2) \<Rightarrow> (Some invalid_file_alert, s2)
           | (None, s2) \<Rightarrow>
               (case import_connections importedData s2 of
                  (Some e, s3) \<Rightarrow> (Some invalid_file_alert, s3)
                | (None, s3) \<Rightarrow> (None, s3))))"

datatype file_read = Loaded string | ReadFailed

definition handleFileChange ::
  "(string \<Rightarrow> json option) \<Rightarrow> file_read option \<Rightarrow> JStore \<Rightarrow> string option \<times> JStore" where
  "handleFileChange JSON_parse file state =
     (case file of
        None \<Rightarrow> (None, state)
      | Some ReadFailed \<Rightarrow> (Some read_failed_alert, state)
      | Some (Loaded file_content) \<Rightarrow> reader_onload JSON_parse file_content state)"

text \<open>
  The shapes of an import document in the specification's words: an object with a
  \<open>nodes\<close> array, and a bare array at the root.
\<close>

definition has_nodes_array :: "json \<Rightarrow> bool" where
  "has_nodes_array d =
     (case d of
        JObj fs \<Rightarrow> (case map_of fs ''nodes'' of Some (JArr ns) \<Rightarrow> True | _ \<Rightarrow> False)
      | _ \<Rightarrow> False)"

definition is_bare_array :: "json \<Rightarrow> bool" where
  "is_bare_array d = (case d of JArr ns \<Rightarrow> True | _ \<Rightarrow> False)"

section \<open>Connecting two nodes (the builder's \<open>onConnect\<close>)\<close>

text \<open>Decimal digits of \<open>Date.now()\<close>, as a template literal prints the number.\<close>

fun string_of_nat :: "nat \<Rightarrow> string" where
  "string_of_nat n =
     (if n < 10 then [''0123456789'' ! n]
      else string_of_nat (n div 10) @ [''0123456789'' ! (n mod 10)])"

declare string_of_nat.simps [simp del]

text \<open>\<open>h || null\<close> on a handle id: the empty string is falsy.\<close>

definition or_null :: "string option \<Rightarrow> string option" where
  "or_null h = (case h of None \<Rightarrow> None | Some s \<Rightarrow> if s = [] then None else Some s)"

text \<open>
  The builder holds the store, the flow component's own node list (the list that
  \<open>onConnect\<close> searches) and its edge list. \<open>addEdge\<close> belongs to the flow library
  and is a parameter.
\<close>

record Builder =
  store :: Store
  flow_nodes :: "NodeData list"
  edges :: "Edge list"

definition onConnect ::
  "(Connection \<Rightarrow> Edge list \<Rightarrow> Edge list) \<Rightarrow> nat \<Rightarrow> Connection \<Rightarrow> Builder \<Rightarrow> Builder" where
  "onConnect addEdge now params b =
     (let newEdge =
            \<lparr>source = source params, target = target params,
             sourceHandle = or_null (sourceHandle params),
             targetHandle = or_null (targetHandle params),
             edge_id = ''edge-'' @ source params @ ''-'' @ target params @ ''-''
                        @ string_of_nat now,
             edge_type = None, animated = None, style = None, edge_data = None\<rparr>;
          sourceNode = find (\<lambda>node. node_id node = source params) (flow_nodes b);
          targetNode = find (\<lambda>node. node_id node = target params) (flow_nodes b);
          store' =
            (case (sourceNode, targetNode) of
               (Some sn, Some tn) \<Rightarrow>
                 addConnection (createConnectionData sn tn newEdge) (store b)
             | _ \<Rightarrow> store b)
      in b\<lparr>store := store', edges := addEdge params (edges b)\<rparr>)"

section \<open>Carousel cards\<close>

text \<open>
  \<open>Array.prototype.slice(start, end)\<close> on integer arguments: a negative index counts
  from the end, both are clamped to the array, and a missing \<open>end\<close> is the length.
\<close>

definition js_slice :: "'a list \<Rightarrow> int \<Rightarrow> int option \<Rightarrow> 'a list" where
  "js_slice xs start end_opt =
     (let len = int (length xs);
          k = (if start < 0 then max (len + start) 0 else min start len);
          e = (case end_opt of None \<Rightarrow> len | Some e' \<Rightarrow> e');
          final = (if e < 0 then max (len + e) 0 else min e len)
      in take (nat (final - k)) (drop (nat k) xs))"

definition newCardItem :: CardItem where
  "newCardItem =
     \<lparr>title = '''', description = '''', image = '''', actions = [], card_selected = None\<rparr>"

text \<open>
  \<open>addNewCarouselCard\<close> of the carousel component, whose props are the carousel data
  \<open>data\<close> and the node id \<open>i\<close>.
\<close>

definition addNewCarouselCard ::
  "CarouselData \<Rightarrow> string \<Rightarrow> int \<Rightarrow> (NodeData, 'c) NodesState \<Rightarrow> (NodeData, 'c) NodesState" where
  "addNewCarouselCard data i currentIndex state =
     (case find (\<lambda>node. node_id node = i) (nodes state) of
        None \<Rightarrow> state
      | Some selectedNode \<Rightarrow>
          (let updatedCards =
                 js_slice (cards data) 0 (Some (currentIndex + 1)) @ [newCardItem]
                   @ js_slice (cards data) (currentIndex + 1) None;
               updatedNode =
                 selectedNode\<lparr>node_data :=
                   (node_data selectedNode)\<lparr>content := Carousel \<lparr>cards = updatedCards\<rparr>\<rparr>\<rparr>
           in updateNode updatedNode state))"

text \<open>
  The cards of a node as the carousel component receives them
  (\<open>data.content as CarouselData\<close>).
\<close>

definition carousel_cards :: "NodeData \<Rightarrow> CardItem list" where
  "carousel_cards n = (case content (node_data n) of Carousel d \<Rightarrow> cards d | RichCard r \<Rightarrow> [])"

section \<open>Sample values\<close>

definition sample_datum :: NodeDatum where
  "sample_datum =
     \<lparr>datum_type = richCard,
      content = RichCard \<lparr>rich_title = '''', rich_description = '''', rich_image = '''',
                          rich_actions = []\<rparr>\<rparr>"

definition sample_node :: "string \<Rightarrow> int \<Rightarrow> NodeData" where
  "sample_node i px =
     \<lparr>node_id = i, position = \<lparr>x = px, y = 0\<rparr>, node_type = Some ''customNode'',
      node_data = sample_datum, measured = None, selected = None, dragging = None\<rparr>"

definition sample_edge :: "string \<Rightarrow> string \<Rightarrow> string \<Rightarrow> Edge" where
  "sample_edge e a b =
     \<lparr>source = a, target = b, sourceHandle = None, targetHandle = None,
      edge_id = e, edge_type = None, animated = None, style = None, edge_data = None\<rparr>"

definition sample_conn :: "string \<Rightarrow> string \<Rightarrow> string \<Rightarrow> ConnectionData" where
  "sample_conn e a b =
     createConnectionData (sample_node a 0) (sample_node b 0) (sample_edge e a b)"

definition sample_store :: Store where
  "sample_store =
     \<lparr>nodes = [sample_node ''a'' 0, sample_node ''b'' 10],
      connections = [sample_conn ''e1'' ''a'' ''b'', sample_conn ''e2'' ''b'' ''c'',
                     sample_conn ''e3'' ''c'' ''a'']\<rparr>"

definition dup_store :: Store where
  "dup_store =
     \<lparr>nodes = [sample_node ''a'' 0, sample_node ''b'' 10, sample_node ''a'' 5],
      connections = []\<rparr>"

definition sample_calls :: "call list" where
  "sample_calls =
     [AddNode (sample_node ''a'' 0), AddNode (sample_node ''b'' 10),
      UpdateNode (sample_node ''a'' 5), RemoveNode ''b'', UpdateNode (sample_node ''z'' 7)]"

text \<open>A run of \<open>JSON.parse\<close> that reads the document \<open>d\<close>.\<close>

definition parse_as :: "json \<Rightarrow> string \<Rightarrow> json option" where
  "parse_as d t = Some d"

definition sample_json_node :: "string \<Rightarrow> json" where
  "sample_json_node i =
     JObj [(''id'', JStr i),
           (''type'', JStr ''customNode''),
           (''position'', JObj [(''x'', JNum 0), (''y'', JNum 0)]),
           (''data'', JObj [(''type'', JStr ''richCard''),
                            (''content'', JObj [(''title'', JStr ''''),
                                                (''description'', JStr ''''),
                                                (''image'', JStr ''''),
                                                (''actions'', JArr [])])])]"

definition sample_json_conn :: "string \<Rightarrow> string \<Rightarrow> string \<Rightarrow> json" where
  "sample_json_conn e a b =
     JObj [(''id'', JStr e), (''sourceId'', JStr a), (''targetId'', JStr b),
           (''sourcePosition'', JObj [(''x'', JNum 0), (''y'', JNum 0)]),
           (''targetPosition'', JObj [(''x'', JNum 0), (''y'', JNum 0)]),
           (''edgeData'', JObj [(''source'', JStr a), (''target'', JStr b),
                                (''id'', JStr e), (''sourceHandle'', JNull),
                                (''targetHandle'', JNull)])]"

definition sample_jstore :: JStore where
  "sample_jstore =
     \<lparr>nodes = [sample_json_node ''1'', sample_json_node ''2''],
      connections = [sample_json_conn ''e1'' ''1'' ''2'']\<rparr>"

text \<open>
  A sample of the runtime's codec: \<open>sample_stringify\<close> writes the text \<open>flow\<close> for
  the sample document and \<open>sample_parse\<close> reads that text, and no other, back.
\<close>

definition sample_document :: json where
  "sample_document =
     JObj [(''nodes'', JArr [sample_json_node ''1'', sample_json_node ''2'']),
           (''connections'', JArr [sample_json_conn ''e1'' ''1'' ''2''])]"

definition sample_stringify :: "json \<Rightarrow> string" where
  "sample_stringify d = (if d = sample_document then ''flow'' else ''other'')"

definition sample_parse :: "string \<Rightarrow> json option" where
  "sample_parse t = (if t = ''flow'' then Some sample_document else None)"

definition other_jstore :: JStore where
  "other_jstore =
     \<lparr>nodes = [sample_json_node ''9''], connections = [sample_json_conn ''e9'' ''9'' ''9'']\<rparr>"

text \<open>A sample of the flow library's \<open>addEdge\<close>: it appends an edge for the event.\<close>

definition sample_addEdge :: "Connection \<Rightarrow> Edge list \<Rightarrow> Edge list" where
  "sample_addEdge params eds =
     eds @ [\<lparr>source = source params, target = target params,
             sourceHandle = sourceHandle params, targetHandle = targetHandle params,
             edge_id = ''xy-edge__'' @ source params @ ''-'' @ target params,
             edge_type = None, animated = None, style = None, edge_data = None\<rparr>]"

definition sample_builder :: Builder where
  "sample_builder =
     \<lparr>store = sample_store, flow_nodes = nodes sample_store, edges = []\<rparr>"

definition sample_params :: "string \<Rightarrow> string \<Rightarrow> Connection" where
  "sample_params a b =
     \<lparr>source = a, target = b, sourceHandle = Some ''source-0'', targetHandle = Some ''''\<rparr>"

definition sample_card :: CardItem where
  "sample_card =
     \<lparr>title = ''Hello'', description = ''First card'', image = '''',
      actions = [\<lparr>action_value = ''link''\<rparr>], card_selected = None\<rparr>"

definition carousel_node :: "string \<Rightarrow> CardItem list \<Rightarrow> NodeData" where
  "carousel_node i cs =
     \<lparr>node_id = i, position = \<lparr>x = 0, y = 0\<rparr>, node_type = Some ''customNode'',
      node_data = \<lparr>datum_type = carousel, content = Carousel \<lparr>cards = cs\<rparr>\<rparr>,
      measured = None, selected = None, dragging = None\<rparr>"

definition carousel_store :: Store where
  "carousel_store =
     \<lparr>nodes = [sample_node ''a'' 0, carousel_node ''c'' [sample_card]], connections = []\<rparr>"

section \<open>Connections of a node\<close>

lemma getConnectionsByNodeId_fst:
  "fst (getConnectionsByNodeId i s) =
     filter (\<lambda>conn. sourceId conn = i \<or> targetId conn = i) (connections s)"
  by (simp add: getConnectionsByNodeId_def)

text \<open>
  C7: \<open>getConnectionsByNodeId i\<close> returns exactly the connections whose \<open>sourceId\<close> or
  \<open>targetId\<close> is \<open>i\<close>: a connection occurs in the result as often as in the store when
  it touches \<open>i\<close> and not at all otherwise, the result is a subsequence of the
  connection sequence (so insertion order is kept), and the store is left as it was.
\<close>

theorem getConnectionsByNodeId_exact:
  "(\<forall>c. count_list (fst (getConnectionsByNodeId i s)) c =
        (if sourceId c = i \<or> targetId c = i then count_list (connections s) c else 0))
   \<and> subseq (fst (getConnectionsByNodeId i s)) (connections s)
   \<and> snd (getConnectionsByNodeId i s) = s"
proof (intro conjI allI)
  fix c
  have "count_list (filter P cs) c = (if P c then count_list cs c else 0)"
    for P and cs :: "ConnectionData list"
    by (induction cs) auto
  then show "count_list (fst (getConnectionsByNodeId i s)) c =
        (if sourceId c = i \<or> targetId c = i then count_list (connections s) c else 0)"
    unfolding getConnectionsByNodeId_fst by simp
next
  show "subseq (fst (getConnectionsByNodeId i s)) (connections s)"
    unfolding getConnectionsByNodeId_fst by simp
next
  show "snd (getConnectionsByNodeId i s) = s"
    by (simp add: getConnectionsByNodeId_def)
qed


theorem getConnectionsByNodeId_exact_witness:
  "fst (getConnectionsByNodeId ''a'' sample_store) =
     [sample_conn ''e1'' ''a'' ''b'', sample_conn ''e3'' ''c'' ''a'']
   \<and> count_list (fst (getConnectionsByNodeId ''a'' sample_store))
         (sample_conn ''e3'' ''c'' ''a'') = 1
   \<and> count_list (fst (getConnectionsByNodeId ''a'' sample_store))
         (sample_conn ''e2'' ''b'' ''c'') = 0
   \<and> subseq (fst (getConnectionsByNodeId ''a'' sample_store)) (connections sample_store)
   \<and> snd (getConnectionsByNodeId ''a'' sample_store) = sample_store"
  using getConnectionsByNodeId_exact [of "''a''" sample_store]
  by (simp add: getConnectionsByNodeId_def sample_store_def sample_conn_def
      sample_node_def sample_edge_def sample_datum_def createConnectionData_def)

text \<open>
  C4: \<open>removeNode i\<close> leaves the connection sequence as it is, so the connections
  of \<open>i\<close> are the same after the removal as before, and every connection whose
  \<open>sourceId\<close> or \<open>targetId\<close> is \<open>i\<close> is still returned: the deletion does not
  cascade.
\<close>

theorem removeNode_keeps_connections:
  "connections (removeNode i s) = connections s
   \<and> fst (getConnectionsByNodeId i (removeNode i s)) = fst (getConnectionsByNodeId i s)
   \<and> (\<forall>c \<in> set (connections s). sourceId c = i \<or> targetId c = i \<longrightarrow>
         c \<in> set (fst (getConnectionsByNodeId i (removeNode i s))))"
  by (simp add: removeNode_def getConnectionsByNodeId_def)

theorem removeNode_keeps_connections_witness:
  "connections (removeNode ''a'' sample_store) = connections sample_store
   \<and> fst (getConnectionsByNodeId ''a'' (removeNode ''a'' sample_store)) =
       [sample_conn ''e1'' ''a'' ''b'', sample_conn ''e3'' ''c'' ''a'']
   \<and> nodes (removeNode ''a'' sample_store) = [sample_node ''b'' 10]
   \<and> sample_conn ''e1'' ''a'' ''b'' \<in> set (connections sample_store)
   \<and> sourceId (sample_conn ''e1'' ''a'' ''b'') = ''a''
   \<and> sample_conn ''e1'' ''a'' ''b''
         \<in> set (fst (getConnectionsByNodeId ''a'' (removeNode ''a'' sample_store)))"
  using removeNode_keeps_connections [of "''a''" sample_store]
  by (simp add: getConnectionsByNodeId_def removeNode_def sample_store_def sample_conn_def
      sample_node_def sample_edge_def sample_datum_def createConnectionData_def)

section \<open>Nodes sharing an id\<close>

lemma count_list_filter:
  "count_list (filter P xs) v = (if P v then count_list xs v else 0)"
  by (induction xs) auto

text \<open>
  C10: with several nodes of the same id in the sequence, \<open>updateNode n\<close> puts
  \<open>n\<close> at every position whose node has the id of \<open>n\<close> and keeps every other
  position, and \<open>removeNode i\<close> leaves no node of id \<open>i\<close> and keeps every other
  node, as often as it occurred and in the same order. Neither prefers a first
  occurrence.
\<close>

theorem duplicate_ids_all_occurrences:
  "length (nodes (updateNode n s)) = length (nodes s)
   \<and> (\<forall>k < length (nodes s).
         nodes (updateNode n s) ! k =
           (if node_id (nodes s ! k) = node_id n then n else nodes s ! k))
   \<and> (\<forall>m \<in> set (nodes (removeNode i s)). node_id m \<noteq> i)
   \<and> (\<forall>m. node_id m \<noteq> i \<longrightarrow>
         count_list (nodes (removeNode i s)) m = count_list (nodes s) m)
   \<and> subseq (nodes (removeNode i s)) (nodes s)"
  by (simp add: updateNode_def removeNode_def count_list_filter)

theorem duplicate_ids_all_occurrences_witness:
  "nodes dup_store ! 0 \<noteq> nodes dup_store ! 2
   \<and> node_id (nodes dup_store ! 0) = ''a'' \<and> node_id (nodes dup_store ! 2) = ''a''
   \<and> (2::nat) < length (nodes dup_store)
   \<and> nodes (updateNode (sample_node ''a'' 9) dup_store) =
       [sample_node ''a'' 9, sample_node ''b'' 10, sample_node ''a'' 9]
   \<and> nodes (removeNode ''a'' dup_store) = [sample_node ''b'' 10]
   \<and> sample_node ''b'' 10 \<in> set (nodes (removeNode ''a'' dup_store))
   \<and> node_id (sample_node ''b'' 10) \<noteq> ''a''"
  using duplicate_ids_all_occurrences [of "sample_node ''a'' 9" dup_store "''a''"]
  by (simp add: updateNode_def removeNode_def dup_store_def sample_node_def
      sample_datum_def)

section \<open>Sequences of calls: last write wins\<close>

lemma removed_later_Cons [simp]:
  "removed_later i (c # cs) = (c = RemoveNode i \<or> removed_later i cs)"
  by (auto simp: removed_later_def)

lemma survivor_AddNode [simp]: "survivor n (AddNode m # cs) = survivor n cs"
  by (simp add: survivor_def latest_content_def)

lemma survivor_RemoveNode [simp]:
  "survivor n (RemoveNode i # cs) = (if node_id n = i then [] else survivor n cs)"
  by (auto simp: survivor_def latest_content_def)

lemma survivor_UpdateNode [simp]:
  "survivor n (UpdateNode u # cs) =
     (if node_id n = node_id u then survivor u cs else survivor n cs)"
  by (auto simp: survivor_def latest_content_def split: list.splits)

lemma survivor_Nil [simp]: "survivor n [] = [n]"
  by (simp add: survivor_def latest_content_def removed_later_def)

lemma nodes_apply_calls:
  "nodes (apply_calls cs s) = concat (map (\<lambda>n. survivor n cs) (nodes s)) @ surviving_nodes cs"
proof (induction cs arbitrary: s)
  case Nil
  show ?case by (simp add: apply_calls_def)
next
  case (Cons c cs)
  have step: "apply_calls (c # cs) s = apply_calls cs (apply_call c s)"
    by (simp add: apply_calls_def)
  show ?case
  proof (cases c)
    case (AddNode n)
    then show ?thesis unfolding step Cons.IH by (simp add: addNode_def)
  next
    case (RemoveNode i)
    have "concat (map (\<lambda>n. survivor n cs) (filter (\<lambda>n. node_id n \<noteq> i) ns)) =
          concat (map (\<lambda>n. if node_id n = i then [] else survivor n cs) ns)" for ns
      by (induction ns) auto
    with RemoveNode show ?thesis unfolding step Cons.IH by (simp add: removeNode_def)
  next
    case (UpdateNode u)
    have "concat (map (\<lambda>n. survivor n cs)
             (map (\<lambda>n. if node_id n = node_id u then u else n) ns)) =
          concat (map (\<lambda>n. if node_id n = node_id u then survivor u cs else survivor n cs) ns)"
      for ns
      by (induction ns) auto
    with UpdateNode show ?thesis unfolding step Cons.IH
      by (simp add: updateNode_def del: map_map)
  qed
qed

lemma surviving_nodes_prefix:
  "surviving_nodes (map AddNode ns @ cs) =
     concat (map (\<lambda>n. survivor n cs) ns) @ surviving_nodes cs"
proof (induction ns)
  case Nil
  show ?case by simp
next
  case (Cons m ns)
  have "survivor n (map AddNode ms @ cs) = survivor n cs" for n ms
    by (induction ms) auto
  with Cons show ?case by simp
qed

lemma updates_of_ids: "u \<in> set (updates_of i cs) \<Longrightarrow> node_id u = i"
  by (induction i cs rule: updates_of.induct) (auto split: if_splits)

lemma node_id_latest_content [simp]: "node_id (latest_content n cs) = node_id n"
proof (cases "updates_of (node_id n) cs")
  case Nil
  then show ?thesis by (simp add: latest_content_def)
next
  case (Cons u us)
  have "last (u # us) \<in> set (updates_of (node_id n) cs)"
    unfolding Cons by (rule last_in_set) simp
  then have "node_id (last (u # us)) = node_id n" by (rule updates_of_ids)
  with Cons show ?thesis by (simp add: latest_content_def)
qed

lemma ids_surviving_nodes:
  "node_id ` set (surviving_nodes cs) =
     {i. \<exists>k n. k < length cs \<and> cs ! k = AddNode n \<and> node_id n = i
              \<and> RemoveNode i \<notin> set (drop (Suc k) cs)}"
  (is "?L cs = ?R cs")
proof (induction cs)
  case Nil
  show ?case by simp
next
  case (Cons c cs)
  have shift: "?R (c # cs) =
      {i. \<exists>n. c = AddNode n \<and> node_id n = i \<and> RemoveNode i \<notin> set cs} \<union> ?R cs"
  proof (intro set_eqI iffI)
    fix i assume "i \<in> ?R (c # cs)"
    then obtain k n where k: "k < length (c # cs)" "(c # cs) ! k = AddNode n" "node_id n = i"
      "RemoveNode i \<notin> set (drop (Suc k) (c # cs))" by blast
    show "i \<in> {i. \<exists>n. c = AddNode n \<and> node_id n = i \<and> RemoveNode i \<notin> set cs} \<union> ?R cs"
    proof (cases k)
      case 0
      with k show ?thesis by auto
    next
      case (Suc j)
      with k have "j < length cs \<and> cs ! j = AddNode n \<and> node_id n = i
        \<and> RemoveNode i \<notin> set (drop (Suc j) cs)" by simp
      then show ?thesis by blast
    qed
  next
    fix i assume "i \<in> {i. \<exists>n. c = AddNode n \<and> node_id n = i \<and> RemoveNode i \<notin> set cs} \<union> ?R cs"
    then consider (hd) n where "c = AddNode n" "node_id n = i" "RemoveNode i \<notin> set cs"
      | (tl) k n where "k < length cs" "cs ! k = AddNode n" "node_id n = i"
          "RemoveNode i \<notin> set (drop (Suc k) cs)" by blast
    then show "i \<in> ?R (c # cs)"
    proof cases
      case hd
      then have "0 < length (c # cs) \<and> (c # cs) ! 0 = AddNode n \<and> node_id n = i
        \<and> RemoveNode i \<notin> set (drop (Suc 0) (c # cs))" by simp
      then show ?thesis by blast
    next
      case tl
      then have "Suc k < length (c # cs) \<and> (c # cs) ! Suc k = AddNode n \<and> node_id n = i
        \<and> RemoveNode i \<notin> set (drop (Suc (Suc k)) (c # cs))" by simp
      then show ?thesis by blast
    qed
  qed
  show ?case
  proof (cases c)
    case (AddNode n)
    then show ?thesis unfolding shift using Cons.IH
      by (auto simp: survivor_def removed_later_def)
  next
    case (RemoveNode i)
    then show ?thesis unfolding shift using Cons.IH by auto
  next
    case (UpdateNode u)
    then show ?thesis unfolding shift using Cons.IH by auto
  qed
qed

text \<open>
  C3: after any sequence of \<open>addNode\<close>, \<open>removeNode\<close> and \<open>updateNode\<close> calls,
  the node sequence is the sequence of surviving nodes: the nodes that were added (or
  were in the store at the start) and whose id is not removed later, in the order of
  their addition, each with the content of the last later \<open>updateNode\<close> call of its
  id, or its own content when there is none. From the empty store, the ids present are
  exactly the ids added by some call and not removed by a later one. \<open>updateNode\<close>
  with an id that no node has changes nothing.
\<close>

theorem node_calls_last_write_wins:
  "nodes (apply_calls cs s) = surviving_nodes (map AddNode (nodes s) @ cs)
   \<and> nodes (apply_calls cs (initial_state :: (NodeData, 'c) NodesState)) = surviving_nodes cs
   \<and> node_id ` set (nodes (apply_calls cs (initial_state :: (NodeData, 'c) NodesState))) =
       {i. \<exists>k n. k < length cs \<and> cs ! k = AddNode n \<and> node_id n = i
                \<and> RemoveNode i \<notin> set (drop (Suc k) cs)}
   \<and> (node_id n \<notin> node_id ` set (nodes s) \<longrightarrow> updateNode n s = s)"
proof (intro conjI impI)
  show "nodes (apply_calls cs s) = surviving_nodes (map AddNode (nodes s) @ cs)"
    by (simp add: nodes_apply_calls surviving_nodes_prefix)
  show init: "nodes (apply_calls cs (initial_state :: (NodeData, 'c) NodesState)) = surviving_nodes cs"
    by (simp add: nodes_apply_calls initial_state_def)
  show "node_id ` set (nodes (apply_calls cs (initial_state :: (NodeData, 'c) NodesState))) =
       {i. \<exists>k n. k < length cs \<and> cs ! k = AddNode n \<and> node_id n = i
                \<and> RemoveNode i \<notin> set (drop (Suc k) cs)}"
    unfolding init by (rule ids_surviving_nodes)
next
  assume "node_id n \<notin> node_id ` set (nodes s)"
  then have "\<forall>m \<in> set (nodes s). node_id m \<noteq> node_id n"
    by (metis image_eqI)
  then have "map (\<lambda>m. if node_id m = node_id n then n else m) (nodes s) = nodes s"
    by (intro map_idI) simp
  then show "updateNode n s = s" by (simp add: updateNode_def)
qed

theorem node_calls_last_write_wins_witness:
  "nodes (apply_calls sample_calls (initial_state :: Store)) = [sample_node ''a'' 5]
   \<and> surviving_nodes sample_calls = [sample_node ''a'' 5]
   \<and> node_id (sample_node ''z'' 7) \<notin> node_id ` set (nodes sample_store)
   \<and> updateNode (sample_node ''z'' 7) sample_store = sample_store"
  using node_calls_last_write_wins [of sample_calls sample_store "sample_node ''z'' 7"]
        node_calls_last_write_wins [of sample_calls "initial_state :: Store" "sample_node ''z'' 7"]
  by (simp add: sample_calls_def survivor_def latest_content_def removed_later_def
      apply_calls_def addNode_def removeNode_def updateNode_def initial_state_def sample_store_def
      sample_conn_def sample_node_def sample_edge_def sample_datum_def createConnectionData_def)

section \<open>Import and export\<close>

lemma foldl_addConnection:
  "foldl (\<lambda>s conn. addConnection conn s) st cs = st\<lparr>connections := connections st @ cs\<rparr>"
  by (induction cs arbitrary: st) (simp_all add: addConnection_def)

text \<open>
  C1 as stated (a document that is neither an object with a \<open>nodes\<close> array nor a
  bare array fails with a format error and leaves both sequences as they were) does not
  hold: \<open>clearConnections()\<close> runs before the shape is looked at. Importing the
  document \<open>{}\<close> into a store with one connection alerts the format error and
  leaves the connection sequence empty.
\<close>

theorem import_format_error_counterexample:
  "parse_as (JObj []) ''{}'' = Some (JObj [])
   \<and> \<not> has_nodes_array (JObj []) \<and> \<not> is_bare_array (JObj [])
   \<and> fst (handleFileChange (parse_as (JObj [])) (Some (Loaded ''{}'')) sample_jstore)
       = Some invalid_file_alert
   \<and> connections sample_jstore = [sample_json_conn ''e1'' ''1'' ''2'']
   \<and> connections (snd (handleFileChange (parse_as (JObj [])) (Some (Loaded ''{}'')) sample_jstore))
       = []
   \<and> snd (handleFileChange (parse_as (JObj [])) (Some (Loaded ''{}'')) sample_jstore)
       \<noteq> sample_jstore"
  by (simp add: handleFileChange_def reader_onload_def import_nodes_def
      import_connections_def clearConnections_def setNodes_def addConnection_def
      has_nodes_array_def is_bare_array_def parse_as_def sample_jstore_def
      sample_json_node_def sample_json_conn_def)

text \<open>
  C1, amended: such a document fails with the format error, the node sequence is what
  it was before the import, and the connection sequence is empty afterwards.
\<close>

theorem import_format_error_clears_connections:
  assumes "JSON_parse file_content = Some d"
    and "\<not> has_nodes_array d" and "\<not> is_bare_array d"
  shows "handleFileChange JSON_parse (Some (Loaded file_content)) s =
           (Some invalid_file_alert, s\<lparr>connections := []\<rparr>)
         \<and> nodes (snd (handleFileChange JSON_parse (Some (Loaded file_content)) s)) = nodes s
         \<and> connections (snd (handleFileChange JSON_parse (Some (Loaded file_content)) s)) = []"
proof -
  have "import_nodes d st = (Some (case d of JNull \<Rightarrow> TypeError
                                    | _ \<Rightarrow> Error ''Invalid nodes data structure''), st)" for st
  proof (cases d)
    case (JObj fs)
    with assms(2) have "\<not> isArray (map_of fs ''nodes'')"
      by (auto simp: has_nodes_array_def split: option.splits json.splits)
    with JObj show ?thesis by (simp add: import_nodes_def)
  next
    case (JArr vs)
    with assms(3) show ?thesis by (simp add: is_bare_array_def)
  qed (simp_all add: import_nodes_def)
  with assms(1) show ?thesis
    by (simp add: handleFileChange_def reader_onload_def clearConnections_def)
qed

theorem import_format_error_clears_connections_witness:
  "parse_as (JObj [(''nodes'', JStr ''none'')]) ''doc'' = Some (JObj [(''nodes'', JStr ''none'')])
   \<and> \<not> has_nodes_array (JObj [(''nodes'', JStr ''none'')])
   \<and> \<not> is_bare_array (JObj [(''nodes'', JStr ''none'')])
   \<and> handleFileChange (parse_as (JObj [(''nodes'', JStr ''none'')])) (Some (Loaded ''doc''))
         sample_jstore
       = (Some invalid_file_alert,
          \<lparr>nodes = [sample_json_node ''1'', sample_json_node ''2''], connections = []\<rparr>)"
  using import_format_error_clears_connections
    [of "parse_as (JObj [(''nodes'', JStr ''none'')])" "''doc''"
        "JObj [(''nodes'', JStr ''none'')]" sample_jstore]
  by (simp add: has_nodes_array_def is_bare_array_def parse_as_def sample_jstore_def
      sample_json_node_def sample_json_conn_def)

text \<open>
  C8: importing a document that is a bare array at the root makes the array's elements
  the node sequence, in order, and leaves the connection sequence empty, without an
  error; in particular for an array of two nodes.
\<close>

theorem import_bare_array:
  assumes "JSON_parse file_content = Some (JArr ns)"
  shows "handleFileChange JSON_parse (Some (Loaded file_content)) s =
           (None, \<lparr>nodes = ns, connections = []\<rparr>)"
  using assms by (simp add: handleFileChange_def reader_onload_def import_nodes_def
      import_connections_def clearConnections_def setNodes_def addConnection_def)

theorem import_bare_array_witness:
  "parse_as (JArr [sample_json_node ''1'', sample_json_node ''2'']) ''doc''
     = Some (JArr [sample_json_node ''1'', sample_json_node ''2''])
   \<and> handleFileChange (parse_as (JArr [sample_json_node ''1'', sample_json_node ''2'']))
         (Some (Loaded ''doc'')) other_jstore
       = (None, \<lparr>nodes = [sample_json_node ''1'', sample_json_node ''2''], connections = []\<rparr>)"
  using import_bare_array
    [of "parse_as (JArr [sample_json_node ''1'', sample_json_node ''2''])" "''doc''"
        "[sample_json_node ''1'', sample_json_node ''2'']" other_jstore]
  by (simp add: parse_as_def)

text \<open>
  With a parser that inverts the serialiser on every document, exporting a store and
  importing the text gives the store back.
\<close>

lemma roundtrip_for_inverse_codec:
  assumes "\<And>d. JSON_parse (JSON_stringify d) = Some d"
  shows "handleFileChange JSON_parse (Some (Loaded (handleExport JSON_stringify S))) S0 =
           (None, S)"
  by (simp add: assms handleExport_def handleFileChange_def reader_onload_def import_nodes_def
      import_connections_def foldl_addConnection clearConnections_def setNodes_def)

text \<open>
  C2: \<open>handleExport\<close> writes the serialised document \<open>{nodes, connections}\<close> of
  the store \<open>S\<close>; when the runtime's parser reads the serialised form of that document
  back as the document (the content is well-formed JSON), importing the exported text
  into any store gives exactly \<open>S\<close>, without an error.
\<close>

theorem export_import_roundtrip:
  assumes "JSON_parse (JSON_stringify
             (JObj [(''nodes'', JArr (nodes S)), (''connections'', JArr (connections S))])) =
           Some (JObj [(''nodes'', JArr (nodes S)), (''connections'', JArr (connections S))])"
  shows "handleExport JSON_stringify S =
           JSON_stringify
             (JObj [(''nodes'', JArr (nodes S)), (''connections'', JArr (connections S))])
         \<and> handleFileChange JSON_parse (Some (Loaded (handleExport JSON_stringify S))) S0 =
             (None, S)"
proof
  show ex: "handleExport JSON_stringify S =
      JSON_stringify
        (JObj [(''nodes'', JArr (nodes S)), (''connections'', JArr (connections S))])"
    by (simp add: handleExport_def)
  show "handleFileChange JSON_parse (Some (Loaded (handleExport JSON_stringify S))) S0 =
      (None, S)"
    unfolding ex using assms
    by (simp add: handleFileChange_def reader_onload_def import_nodes_def
        import_connections_def foldl_addConnection clearConnections_def setNodes_def)
qed

theorem export_import_roundtrip_witness:
  "sample_parse (sample_stringify
       (JObj [(''nodes'', JArr (nodes sample_jstore)),
              (''connections'', JArr (connections sample_jstore))]))
     = Some (JObj [(''nodes'', JArr (nodes sample_jstore)),
                   (''connections'', JArr (connections sample_jstore))])
   \<and> handleExport sample_stringify sample_jstore = ''flow''
   \<and> sample_parse ''other'' = None
   \<and> handleFileChange sample_parse
         (Some (Loaded (handleExport sample_stringify sample_jstore))) other_jstore
       = (None, sample_jstore)
   \<and> other_jstore \<noteq> sample_jstore"
  using export_import_roundtrip [of sample_parse sample_stringify sample_jstore other_jstore]
  by (simp add: handleExport_def sample_parse_def sample_stringify_def sample_document_def
      sample_jstore_def other_jstore_def sample_json_node_def sample_json_conn_def)

section \<open>Connecting two nodes\<close>

lemma string_of_nat_1700: "string_of_nat 1700 = ''1700''"
  by (simp add: string_of_nat.simps)

text \<open>
  C5 as stated (the connection produced by the connection deriver never carries the
  edge's id verbatim) does not hold: \<open>createConnectionData\<close> copies the id of the
  edge it is given.
\<close>

theorem createConnectionData_id_counterexample:
  "conn_id (createConnectionData (sample_node ''a'' 0) (sample_node ''b'' 10)
              (sample_edge ''e1'' ''a'' ''b'')) = ''e1''
   \<and> edge_id (sample_edge ''e1'' ''a'' ''b'') = ''e1''"
  by (simp add: createConnectionData_def sample_edge_def)

text \<open>
  C5, amended: \<open>createConnectionData\<close> gives the connection the id of the edge it
  receives, unchanged. The fresh id is made by \<open>onConnect\<close> before the call: when
  both endpoints are found, the connection it appends has the id
  \<open>edge-<source>-<target>-<Date.now()>\<close>, which is also the id of its edge data.
\<close>

theorem connection_id_minted_by_onConnect:
  "conn_id (createConnectionData sn tn e) = edge_id e
   \<and> (find (\<lambda>node. node_id node = source params) (flow_nodes b) = Some sn
        \<and> find (\<lambda>node. node_id node = target params) (flow_nodes b) = Some tn \<longrightarrow>
       connections (store (onConnect addEdge now params b)) =
         connections (store b) @ [last (connections (store (onConnect addEdge now params b)))]
       \<and> conn_id (last (connections (store (onConnect addEdge now params b)))) =
           ''edge-'' @ source params @ ''-'' @ target params @ ''-'' @ string_of_nat now
       \<and> edge_id (edgeData (last (connections (store (onConnect addEdge now params b))))) =
           conn_id (last (connections (store (onConnect addEdge now params b)))))"
  by (simp add: createConnectionData_def onConnect_def addConnection_def Let_def)

theorem connection_id_minted_by_onConnect_witness:
  "find (\<lambda>node. node_id node = source (sample_params ''a'' ''b'')) (flow_nodes sample_builder)
     = Some (sample_node ''a'' 0)
   \<and> find (\<lambda>node. node_id node = target (sample_params ''a'' ''b'')) (flow_nodes sample_builder)
     = Some (sample_node ''b'' 10)
   \<and> length (connections (store (onConnect sample_addEdge 1700 (sample_params ''a'' ''b'') sample_builder)))
       = 4
   \<and> conn_id (last (connections
        (store (onConnect sample_addEdge 1700 (sample_params ''a'' ''b'') sample_builder))))
       = ''edge-a-b-1700''"
  using connection_id_minted_by_onConnect
    [of "sample_node ''a'' 0" "sample_node ''b'' 10" "sample_edge ''e1'' ''a'' ''b''"
        "sample_params ''a'' ''b''" sample_builder sample_addEdge 1700]
  by (simp add: sample_builder_def sample_params_def sample_store_def sample_conn_def
      sample_node_def sample_edge_def sample_datum_def createConnectionData_def string_of_nat_1700
      onConnect_def addConnection_def Let_def)

text \<open>
  C6: when the source id or the target id of a connect event is the id of no node in
  the builder's current node list, \<open>onConnect\<close> leaves the store, and so its
  connection sequence, exactly as it was.
\<close>

theorem onConnect_missing_endpoint:
  assumes "source params \<notin> node_id ` set (flow_nodes b)
           \<or> target params \<notin> node_id ` set (flow_nodes b)"
  shows "store (onConnect addEdge now params b) = store b
         \<and> connections (store (onConnect addEdge now params b)) = connections (store b)"
proof -
  have none: "i \<notin> node_id ` set ns \<Longrightarrow> find (\<lambda>node. node_id node = i) ns = None" for i ns
    by (auto simp: find_None_iff)
  from assms show ?thesis
  proof
    assume "source params \<notin> node_id ` set (flow_nodes b)"
    then show ?thesis by (simp add: onConnect_def Let_def none)
  next
    assume "target params \<notin> node_id ` set (flow_nodes b)"
    then show ?thesis by (simp add: onConnect_def Let_def none split: option.splits)
  qed
qed

theorem onConnect_missing_endpoint_witness:
  "target (sample_params ''a'' ''zz'') \<notin> node_id ` set (flow_nodes sample_builder)
   \<and> source (sample_params ''a'' ''zz'') \<in> node_id ` set (flow_nodes sample_builder)
   \<and> store (onConnect sample_addEdge 1700 (sample_params ''a'' ''zz'') sample_builder) = sample_store
   \<and> length (connections (store (onConnect sample_addEdge 1700 (sample_params ''a'' ''zz'')
        sample_builder))) = 3"
  using onConnect_missing_endpoint [of "sample_params ''a'' ''zz''" sample_builder sample_addEdge 1700]
  by (simp add: sample_builder_def sample_params_def sample_store_def sample_conn_def
      sample_node_def sample_edge_def sample_datum_def createConnectionData_def)

section \<open>Adding a carousel card\<close>

lemma js_slice_prefix:
  "0 \<le> k \<Longrightarrow> nat k < length xs \<Longrightarrow> js_slice xs 0 (Some (k + 1)) = take (nat k + 1) xs"
  by (simp add: js_slice_def Let_def min_def nat_add_distrib)

lemma js_slice_suffix:
  "0 \<le> k \<Longrightarrow> nat k < length xs \<Longrightarrow> js_slice xs (k + 1) None = drop (nat k + 1) xs"
  by (simp add: js_slice_def Let_def min_def nat_add_distrib)

lemma nth_insert_after:
  assumes "k < length xs"
  shows "length (take (k + 1) xs @ [v] @ drop (k + 1) xs) = length xs + 1"
    and "(take (k + 1) xs @ [v] @ drop (k + 1) xs) ! (k + 1) = v"
    and "j \<le> k \<Longrightarrow> (take (k + 1) xs @ [v] @ drop (k + 1) xs) ! j = xs ! j"
    and "k < j \<Longrightarrow> j < length xs \<Longrightarrow> (take (k + 1) xs @ [v] @ drop (k + 1) xs) ! (j + 1) = xs ! j"
  using assms by (auto simp: nth_append min_def)

text \<open>
  C9: when the node of the component is in the store and \<open>k\<close> is an index of the
  carousel's cards, \<open>addNewCarouselCard k\<close> replaces the node by a copy whose cards
  are the old cards with the empty card inserted right after index \<open>k\<close>: one card
  more, the empty card at \<open>k + 1\<close>, the cards up to \<open>k\<close> where they were, the
  later ones moved by one. With one card and index 0 the cards are the original card
  followed by the empty card.
\<close>

theorem addNewCarouselCard_inserts_after:
  assumes "find (\<lambda>node. node_id node = i) (nodes s) = Some sel"
    and "0 \<le> k" and "nat k < length (cards d)"
  shows "nodes (addNewCarouselCard d i k s) =
           map (\<lambda>n. if node_id n = i
                     then sel\<lparr>node_data := (node_data sel)\<lparr>content :=
                            Carousel \<lparr>cards = take (nat k + 1) (cards d) @ [newCardItem]
                                                 @ drop (nat k + 1) (cards d)\<rparr>\<rparr>\<rparr>
                     else n) (nodes s)
         \<and> (\<exists>n \<in> set (nodes (addNewCarouselCard d i k s)). node_id n = i)
         \<and> (\<forall>n \<in> set (nodes (addNewCarouselCard d i k s)). node_id n = i \<longrightarrow>
               length (carousel_cards n) = length (cards d) + 1
               \<and> carousel_cards n ! (nat k + 1) = newCardItem
               \<and> (\<forall>j \<le> nat k. carousel_cards n ! j = cards d ! j)
               \<and> (\<forall>j. nat k < j \<and> j < length (cards d) \<longrightarrow>
                     carousel_cards n ! (j + 1) = cards d ! j)
               \<and> (k = 0 \<and> length (cards d) = 1 \<longrightarrow>
                     carousel_cards n = [cards d ! 0, newCardItem]))"
proof -
  let ?cs = "take (nat k + 1) (cards d) @ [newCardItem] @ drop (nat k + 1) (cards d)"
  let ?u = "sel\<lparr>node_data := (node_data sel)\<lparr>content := Carousel \<lparr>cards = ?cs\<rparr>\<rparr>\<rparr>"
  from assms(1) have sel: "sel \<in> set (nodes s)" "node_id sel = i"
    by (auto simp: find_Some_iff)
  have eq: "nodes (addNewCarouselCard d i k s) =
      map (\<lambda>n. if node_id n = i then ?u else n) (nodes s)"
    using assms sel(2)
    by (simp add: addNewCarouselCard_def Let_def js_slice_prefix js_slice_suffix updateNode_def)
  have cc: "carousel_cards ?u = ?cs" by (simp add: carousel_cards_def)
  have one: "k = 0 \<and> length (cards d) = 1 \<longrightarrow> ?cs = [cards d ! 0, newCardItem]"
    by (cases "cards d") auto
  have "?u \<in> set (nodes (addNewCarouselCard d i k s))"
    unfolding eq using sel by force
  moreover have "node_id ?u = i" using sel by simp
  ultimately have ex: "\<exists>n \<in> set (nodes (addNewCarouselCard d i k s)). node_id n = i"
    by blast
  have all: "n = ?u" if "n \<in> set (nodes (addNewCarouselCard d i k s))" "node_id n = i" for n
    using that unfolding eq by auto
  show ?thesis
  proof (intro conjI ballI impI)
    show "nodes (addNewCarouselCard d i k s) = map (\<lambda>n. if node_id n = i then ?u else n) (nodes s)"
      by (rule eq)
    show "\<exists>n \<in> set (nodes (addNewCarouselCard d i k s)). node_id n = i" by (rule ex)
  next
    fix n assume n: "n \<in> set (nodes (addNewCarouselCard d i k s))" "node_id n = i"
    then have nu: "carousel_cards n = ?cs" using all cc by simp
    show "length (carousel_cards n) = length (cards d) + 1"
      unfolding nu using nth_insert_after(1) [OF assms(3)] .
    show "carousel_cards n ! (nat k + 1) = newCardItem"
      unfolding nu using nth_insert_after(2) [OF assms(3)] .
    show "\<forall>j \<le> nat k. carousel_cards n ! j = cards d ! j"
      unfolding nu using nth_insert_after(3) [OF assms(3)] by blast
    show "\<forall>j. nat k < j \<and> j < length (cards d) \<longrightarrow> carousel_cards n ! (j + 1) = cards d ! j"
      unfolding nu using nth_insert_after(4) [OF assms(3)] by blast
    show "carousel_cards n = [cards d ! 0, newCardItem]" if "k = 0 \<and> length (cards d) = 1"
      unfolding nu using one that by blast
  qed
qed

theorem addNewCarouselCard_inserts_after_witness:
  "find (\<lambda>node. node_id node = ''c'') (nodes carousel_store)
     = Some (carousel_node ''c'' [sample_card])
   \<and> (0::int) \<le> 0 \<and> nat 0 < length (cards \<lparr>cards = [sample_card]\<rparr>)
   \<and> nodes (addNewCarouselCard \<lparr>cards = [sample_card]\<rparr> ''c'' 0 carousel_store) =
       [sample_node ''a'' 0, carousel_node ''c'' [sample_card, newCardItem]]
   \<and> carousel_cards (carousel_node ''c'' [sample_card, newCardItem]) =
       [sample_card,
        \<lparr>title = '''', description = '''', image = '''', actions = [], card_selected = None\<rparr>]"
  using addNewCarouselCard_inserts_after
    [of "''c''" carousel_store "carousel_node ''c'' [sample_card]" 0 "\<lparr>cards = [sample_card]\<rparr>"]
  by (simp add: carousel_store_def carousel_node_def sample_node_def sample_datum_def carousel_cards_def
      newCardItem_def)

end
